theory Spec2Isabelle
  imports Main
begin

section \<open>JavaScript values and rejections\<close>

text \<open>
  The resolvers of \<^verbatim>\<open>src/server/data/logic.js\<close> are promise chains. A chain is modelled by
  its outcome: \<open>Inl e\<close> when the promise rejects with \<open>e\<close>, \<open>Inr v\<close> when it resolves to
  \<open>v\<close>, paired with the store it leaves behind where the chain writes. Reading a property
  of \<^verbatim>\<open>null\<close> or \<^verbatim>\<open>undefined\<close> throws a \<^verbatim>\<open>TypeError\<close>, which rejects the chain it
  happens in.
\<close>

datatype error = Unauthorized | NoGroupFound | TypeError

text \<open>An input field can be absent (\<^verbatim>\<open>undefined\<close>), an explicit \<^verbatim>\<open>null\<close>, or a value.\<close>

datatype 'a js = Undefined | Null | Val 'a

text \<open>Truthiness: the empty string and the number 0 are falsy, as are null and undefined.\<close>

definition truthyStr :: "string option \<Rightarrow> bool" where
  "truthyStr v = (case v of None \<Rightarrow> False | Some t \<Rightarrow> t \<noteq> [])"

definition truthyInt :: "int option \<Rightarrow> bool" where
  "truthyInt v = (case v of None \<Rightarrow> False | Some n \<Rightarrow> n \<noteq> 0)"

text \<open>\<^verbatim>\<open>a || b\<close> on optional numbers: \<open>a\<close> when it is truthy, else \<open>b\<close> as it is.\<close>

definition jsOr :: "int option \<Rightarrow> int option \<Rightarrow> int option" where
  "jsOr a b = (if truthyInt a then a else b)"

text \<open>\<^verbatim>\<open>n < x\<close> where \<open>x\<close> may be undefined: a comparison with undefined is false.\<close>

definition jsLess :: "int \<Rightarrow> int option \<Rightarrow> bool" where
  "jsLess n x = (case x of None \<Rightarrow> False | Some k \<Rightarrow> n < k)"

section \<open>Cursors\<close>

text \<open>
  \<^verbatim>\<open>Buffer.from(s).toString('base64')\<close> and \<^verbatim>\<open>Buffer.from(c, 'base64').toString()\<close>.
  A text is the list of its UTF-8 bytes. The encoder uses the standard alphabet and pads
  with \<^verbatim>\<open>=\<close>. The decoder is the lenient one of the platform: it stops at the first
  \<^verbatim>\<open>=\<close>, skips every character outside the alphabet, also reads the URL-safe
  characters \<^verbatim>\<open>-\<close> and \<^verbatim>\<open>_\<close>, and drops a trailing lone sextet.
\<close>

definition b64char :: "nat \<Rightarrow> char" where
  "b64char n =
     (if n < 26 then char_of (n + 65)
      else if n < 52 then char_of (n + 71)
      else if n < 62 then char_of (n - 4)
      else if n = 62 then CHR ''+'' else CHR ''/'')"

definition unbase64 :: "char \<Rightarrow> nat option" where
  "unbase64 c =
     (let n = (of_char c :: nat) in
      if 65 \<le> n \<and> n \<le> 90 then Some (n - 65)
      else if 97 \<le> n \<and> n \<le> 122 then Some (n - 71)
      else if 48 \<le> n \<and> n \<le> 57 then Some (n + 4)
      else if n = 43 \<or> n = 45 then Some 62
      else if n = 47 \<or> n = 95 then Some 63
      else None)"

fun encodeGroups :: "nat list \<Rightarrow> nat list" where
  "encodeGroups (a # b # c # r) =
     [a div 4, (a mod 4) * 16 + b div 16, (b mod 16) * 4 + c div 64, c mod 64] @ encodeGroups r"
| "encodeGroups [a, b] = [a div 4, (a mod 4) * 16 + b div 16, (b mod 16) * 4]"
| "encodeGroups [a] = [a div 4, (a mod 4) * 16]"
| "encodeGroups [] = []"

fun decodeGroups :: "nat list \<Rightarrow> nat list" where
  "decodeGroups (s0 # s1 # s2 # s3 # r) =
     [(s0 * 4 + s1 div 16) mod 256, (s1 * 16 + s2 div 4) mod 256, (s2 * 64 + s3) mod 256]
       @ decodeGroups r"
| "decodeGroups [s0, s1, s2] = [(s0 * 4 + s1 div 16) mod 256, (s1 * 16 + s2 div 4) mod 256]"
| "decodeGroups [s0, s1] = [(s0 * 4 + s1 div 16) mod 256]"
| "decodeGroups _ = []"

fun sextets :: "string \<Rightarrow> nat list" where
  "sextets [] = []"
| "sextets (c # cs) =
     (if c = CHR ''='' then []
      else case unbase64 c of None \<Rightarrow> sextets cs | Some v \<Rightarrow> v # sextets cs)"

definition padding :: "nat \<Rightarrow> string" where
  "padding n = (if n mod 3 = 1 then ''=='' else if n mod 3 = 2 then ''='' else [])"

definition toBase64 :: "string \<Rightarrow> string" where
  "toBase64 bs = map b64char (encodeGroups (map of_char bs)) @ padding (length bs)"

definition fromBase64 :: "string \<Rightarrow> string" where
  "fromBase64 t = map char_of (decodeGroups (sextets t))"

text \<open>\<^verbatim>\<open>id.toString()\<close> of an integer id: its decimal digits, with a sign when negative.\<close>

function digits :: "nat \<Rightarrow> string" where
  "digits n =
     (if n < 10 then [char_of (48 + n)] else digits (n div 10) @ [char_of (48 + n mod 10)])"
  by pat_completeness auto
termination
  by (relation "measure id") auto

declare digits.simps [simp del]

definition toString :: "int \<Rightarrow> string" where
  "toString n = (if n < 0 then CHR ''-'' # digits (nat (- n)) else digits (nat n))"

text \<open>
  Modelled from the spec: the store that compares the id column with the decoded text is
  not in the source. The spec has it "decode the cursor to an id": the text is read as a
  decimal number. A text that is not one has no reading here (\<open>None\<close>); what a store
  does with it is left to the parameter \<open>num\<close> of the queries below.
\<close>

definition digitVal :: "char \<Rightarrow> nat option" where
  "digitVal c =
     (let n = (of_char c :: nat) in if 48 \<le> n \<and> n \<le> 57 then Some (n - 48) else None)"

fun readDigits :: "nat \<Rightarrow> string \<Rightarrow> nat option" where
  "readDigits acc [] = Some acc"
| "readDigits acc (c # cs) =
     (case digitVal c of None \<Rightarrow> None | Some d \<Rightarrow> readDigits (acc * 10 + d) cs)"

definition readDecimal :: "string \<Rightarrow> int option" where
  "readDecimal t =
     (case t of
        [] \<Rightarrow> None
      | c # cs \<Rightarrow>
          if c = CHR ''-''
          then (if cs = [] then None else map_option (\<lambda>n. - int n) (readDigits 0 cs))
          else map_option int (readDigits 0 t))"

definition columnValue :: "string \<Rightarrow> int" where
  "columnValue t = (case readDecimal t of None \<Rightarrow> 0 | Some n \<Rightarrow> n)"

text \<open>The two cursor conversions of \<^verbatim>\<open>groupLogic.messages\<close> (lines 98, 102 and 111).\<close>

definition encodeCursor :: "int \<Rightarrow> string" where
  "encodeCursor i = toBase64 (toString i)"

definition decodeCursor :: "string \<Rightarrow> string" where
  "decodeCursor c = fromBase64 c"

section \<open>Entities and the store\<close>

record user =
  uid :: int
  username :: string
  email :: string
  avatar :: "string option"
  registrationId :: "string option"
  badgeCount :: int

record group =
  gid :: int
  gname :: string
  icon :: "string option"

record message =
  mid :: int
  mtext :: string
  userId :: int
  groupId :: int
  createdAt :: int

text \<open>The argument of \<^verbatim>\<open>sendNotification\<close> (lines 50 to 69).\<close>

record notification =
  toReg :: string
  title :: string
  body :: string
  sound :: string
  badge :: int
  click_action :: string
  dataTitle :: string
  dataBody :: string
  dataType :: string
  dataGroupId :: int
  dataGroupName :: string
  priority :: string

text \<open>
  Modelled from the spec: the connectors (\<^verbatim>\<open>Group\<close>, \<^verbatim>\<open>Message\<close>, \<^verbatim>\<open>User\<close>), the file
  storage and the notification transport are imported by the source and are not part of
  it. The store holds the rows of each entity, the membership rows (group id, user id),
  the friendship rows (user id, friend id), the last-read rows (user id, message id), the
  keys of the stored assets, and the notifications handed to the transport, oldest first.
\<close>

record store =
  users :: "user list"
  groups :: "group list"
  messages :: "message list"
  groupUsers :: "(int \<times> int) list"
  friends :: "(int \<times> int) list"
  lastReads :: "(int \<times> int) list"
  files :: "string list"
  sent :: "notification list"

text \<open>
  Modelled from the spec: the relationship helpers and queries of the Entity Store Facade
  (section 6 of the spec): \<^verbatim>\<open>getUsers\<close>, \<^verbatim>\<open>getGroups\<close>, \<^verbatim>\<open>getFriends\<close>, \<^verbatim>\<open>removeUsers\<close>,
  \<^verbatim>\<open>removeUser\<close>, \<^verbatim>\<open>findOne\<close> with a member filter, \<^verbatim>\<open>destroy\<close>, \<^verbatim>\<open>increment\<close>,
  \<^verbatim>\<open>create\<close>, \<^verbatim>\<open>update\<close>, and the last-read helpers.
\<close>

definition group_getUsers :: "store \<Rightarrow> group \<Rightarrow> user list" where
  "group_getUsers s g = filter (\<lambda>u. (gid g, uid u) \<in> set (groupUsers s)) (users s)"

definition user_getGroups :: "store \<Rightarrow> user \<Rightarrow> group list" where
  "user_getGroups s u = filter (\<lambda>g. (gid g, uid u) \<in> set (groupUsers s)) (groups s)"

definition user_getFriends :: "store \<Rightarrow> user \<Rightarrow> user list" where
  "user_getFriends s u = filter (\<lambda>f. (uid u, uid f) \<in> set (friends s)) (users s)"

definition Group_findOne :: "store \<Rightarrow> int \<Rightarrow> int \<Rightarrow> group option" where
  "Group_findOne s i member =
     find (\<lambda>g. gid g = i \<and> (gid g, member) \<in> set (groupUsers s)) (groups s)"

definition group_removeUsers :: "store \<Rightarrow> group \<Rightarrow> user list \<Rightarrow> store" where
  "group_removeUsers s g us =
     s\<lparr>groupUsers :=
         filter (\<lambda>r. \<not> (fst r = gid g \<and> snd r \<in> set (map uid us))) (groupUsers s)\<rparr>"

definition group_removeUser :: "store \<Rightarrow> group \<Rightarrow> int \<Rightarrow> store" where
  "group_removeUser s g u =
     s\<lparr>groupUsers := filter (\<lambda>r. \<not> (fst r = gid g \<and> snd r = u)) (groupUsers s)\<rparr>"

definition group_destroy :: "store \<Rightarrow> group \<Rightarrow> store" where
  "group_destroy s g = s\<lparr>groups := filter (\<lambda>h. gid h \<noteq> gid g) (groups s)\<rparr>"

definition Message_destroy :: "store \<Rightarrow> int \<Rightarrow> store" where
  "Message_destroy s g = s\<lparr>messages := filter (\<lambda>m. groupId m \<noteq> g) (messages s)\<rparr>"

text \<open>
  \<^verbatim>\<open>usr.increment('badgeCount')\<close> adds one to the stored row. The instance it resolves to
  keeps the count it was loaded with (the comment on line 56 of the source).
\<close>

definition user_increment :: "store \<Rightarrow> user \<Rightarrow> user \<times> store" where
  "user_increment s u =
     (u, s\<lparr>users :=
            map (\<lambda>v. if uid v = uid u then v\<lparr>badgeCount := badgeCount v + 1\<rparr> else v)
              (users s)\<rparr>)"

text \<open>A new message gets the next id after every id in use; \<open>now\<close> is the store's clock.\<close>

definition nextMessageId :: "store \<Rightarrow> int" where
  "nextMessageId s = fold max (map mid (messages s)) 0 + 1"

definition Message_create :: "store \<Rightarrow> int \<Rightarrow> string \<Rightarrow> int \<Rightarrow> int \<Rightarrow> message \<times> store" where
  "Message_create s author t g now =
     (let m = \<lparr>mid = nextMessageId s, mtext = t, userId = author, groupId = g,
                createdAt = now\<rparr>
      in (m, s\<lparr>messages := messages s @ [m]\<rparr>))"

definition user_getLastRead :: "store \<Rightarrow> user \<Rightarrow> int \<Rightarrow> message list" where
  "user_getLastRead s u g =
     filter (\<lambda>m. groupId m = g \<and> (uid u, mid m) \<in> set (lastReads s)) (messages s)"

definition user_removeLastRead :: "store \<Rightarrow> user \<Rightarrow> message list \<Rightarrow> store" where
  "user_removeLastRead s u ms =
     s\<lparr>lastReads :=
         filter (\<lambda>r. \<not> (fst r = uid u \<and> snd r \<in> set (map mid ms))) (lastReads s)\<rparr>"

definition user_addLastRead :: "store \<Rightarrow> user \<Rightarrow> int \<Rightarrow> store" where
  "user_addLastRead s u m = s\<lparr>lastReads := lastReads s @ [(uid u, m)]\<rparr>"

text \<open>
  Modelled from the spec: the asset storage. The key of an upload is made from a random
  identifier (\<^verbatim>\<open>uuidv4()\<close>), so the operations that upload take the key as an argument.
\<close>

definition uploadFile :: "store \<Rightarrow> string \<Rightarrow> store" where
  "uploadFile s k = s\<lparr>files := files s @ [k]\<rparr>"

definition deleteFile :: "store \<Rightarrow> string \<Rightarrow> store" where
  "deleteFile s k = s\<lparr>files := removeAll k (files s)\<rparr>"

definition sendNotification :: "store \<Rightarrow> notification \<Rightarrow> store" where
  "sendNotification s n = s\<lparr>sent := sent s @ [n]\<rparr>"

text \<open>
  Modelled from the spec: \<^verbatim>\<open>Message.findAll\<close> and \<^verbatim>\<open>Message.findOne\<close> with a group, an
  optional comparison on the id, the order \<^verbatim>\<open>[['id', 'DESC']]\<close> and an optional limit
  ("ordered descending by id, limited to the page size"). An operand of the comparison is
  a text (a decoded cursor) or a number (the id of a message); \<open>num\<close> is the store's
  reading of a text as an id.
\<close>

datatype operand = Text string | Num int

datatype idWhere = Any | Gt operand | Lt operand

fun operandValue :: "(string \<Rightarrow> int) \<Rightarrow> operand \<Rightarrow> int" where
  "operandValue num (Text t) = num t"
| "operandValue num (Num n) = n"

fun idMatches :: "(string \<Rightarrow> int) \<Rightarrow> idWhere \<Rightarrow> int \<Rightarrow> bool" where
  "idMatches num Any i = True"
| "idMatches num (Gt x) i = (operandValue num x < i)"
| "idMatches num (Lt x) i = (i < operandValue num x)"

definition limitRows :: "int option \<Rightarrow> 'a list \<Rightarrow> 'a list" where
  "limitRows l xs = (case l of None \<Rightarrow> xs | Some n \<Rightarrow> take (nat n) xs)"

definition Message_findAll ::
  "(string \<Rightarrow> int) \<Rightarrow> store \<Rightarrow> int \<Rightarrow> idWhere \<Rightarrow> int option \<Rightarrow> message list" where
  "Message_findAll num s g w l =
     limitRows l
       (rev (sort_key mid (filter (\<lambda>m. groupId m = g \<and> idMatches num w (mid m)) (messages s))))"

definition Message_findOne ::
  "(string \<Rightarrow> int) \<Rightarrow> store \<Rightarrow> int \<Rightarrow> idWhere \<Rightarrow> message option" where
  "Message_findOne num s g w =
     (case Message_findAll num s g w None of [] \<Rightarrow> None | m # _ \<Rightarrow> Some m)"

text \<open>Modelled from the spec: \<^verbatim>\<open>Message.findAll\<close> by author, newest creation time first.\<close>

definition Message_findAllByUser :: "store \<Rightarrow> int \<Rightarrow> message list" where
  "Message_findAllByUser s u =
     rev (sort_key createdAt (filter (\<lambda>m. userId m = u) (messages s)))"

section \<open>Identity guard\<close>

text \<open>
  \<^verbatim>\<open>getAuthenticatedUser\<close> (lines 10 to 17). The context is what \<^verbatim>\<open>ctx.user\<close> resolves
  to: a user, or nothing.
\<close>

definition getAuthenticatedUser :: "user option \<Rightarrow> error + user" where
  "getAuthenticatedUser ctx = (case ctx of None \<Rightarrow> Inl Unauthorized | Some u \<Rightarrow> Inr u)"

section \<open>messageLogic.createMessage\<close>

text \<open>
  Lines 45 to 72: the members of the group other than the author are incremented, those
  of them with a truthy registration id are notified. The continuation is detached from
  the creation; the model runs it to its end, every increment and every dispatch
  succeeding.
\<close>

definition mkNotification :: "user \<Rightarrow> group \<Rightarrow> string \<Rightarrow> user \<Rightarrow> notification" where
  "mkNotification author g t usr =
     \<lparr>toReg = (case registrationId usr of None \<Rightarrow> [] | Some r \<Rightarrow> r),
      title = username author @ '' @ '' @ gname g,
      body = t,
      sound = ''default'',
      badge = badgeCount usr + 1,
      click_action = ''openGroup'',
      dataTitle = username author @ '' @ '' @ gname g,
      dataBody = t,
      dataType = ''MESSAGE_ADDED'',
      dataGroupId = gid g,
      dataGroupName = gname g,
      priority = ''high''\<rparr>"

fun incrementAll :: "store \<Rightarrow> user list \<Rightarrow> user list \<times> store" where
  "incrementAll s [] = ([], s)"
| "incrementAll s (usr # rest) =
     (case user_increment s usr of
        (usr', s') \<Rightarrow> (case incrementAll s' rest of (upd, s'') \<Rightarrow> (usr' # upd, s'')))"

definition fanOut :: "store \<Rightarrow> user \<Rightarrow> group \<Rightarrow> string \<Rightarrow> store" where
  "fanOut s author g t =
     (let usrs = group_getUsers s g;
          (updatedUsers, s') = incrementAll s (filter (\<lambda>usr. uid usr \<noteq> uid author) usrs);
          registeredUsers = filter (\<lambda>usr. truthyStr (registrationId usr)) updatedUsers
      in if registeredUsers \<noteq> []
         then fold (\<lambda>usr st. sendNotification st (mkNotification author g t usr))
                registeredUsers s'
         else s')"

definition createMessage ::
  "store \<Rightarrow> user option \<Rightarrow> string \<Rightarrow> int \<Rightarrow> int \<Rightarrow> (error + message) \<times> store" where
  "createMessage s ctx t g now =
     (case getAuthenticatedUser ctx of
        Inl e \<Rightarrow> (Inl e, s)
      | Inr usr \<Rightarrow>
          (case filter (\<lambda>h. gid h = g) (user_getGroups s usr) of
             [] \<Rightarrow> (Inl Unauthorized, s)
           | grp # _ \<Rightarrow>
               (case Message_create s (uid usr) t g now of
                  (m, s') \<Rightarrow> (Inr m, fanOut s' usr grp t))))"

section \<open>groupLogic.messages\<close>

record messageConnection =
  firstArg :: "int option"
  lastArg :: "int option"
  beforeArg :: "string option"
  afterArg :: "string option"

record edge =
  cursor :: string
  node :: message

text \<open>Lines 90 to 103: the id part of \<^verbatim>\<open>where\<close>, assigned by two successive tests.\<close>

definition whereId :: "messageConnection \<Rightarrow> idWhere" where
  "whereId c =
     (let w0 = Any;
          w1 = (case beforeArg c of
                  None \<Rightarrow> w0
                | Some b \<Rightarrow> if b \<noteq> [] then Gt (Text (decodeCursor b)) else w0);
          w2 = (case afterArg c of
                  None \<Rightarrow> w1
                | Some a \<Rightarrow> if a \<noteq> [] then Lt (Text (decodeCursor a)) else w1)
      in w2)"

text \<open>Lines 105 to 109: the rows the page is made of.\<close>

definition pageRows :: "(string \<Rightarrow> int) \<Rightarrow> store \<Rightarrow> group \<Rightarrow> messageConnection \<Rightarrow> message list" where
  "pageRows num s g c =
     Message_findAll num s (gid g) (whereId c) (jsOr (firstArg c) (lastArg c))"

text \<open>Lines 110 to 113.\<close>

definition pageEdges :: "(string \<Rightarrow> int) \<Rightarrow> store \<Rightarrow> group \<Rightarrow> messageConnection \<Rightarrow> edge list" where
  "pageEdges num s g c =
     map (\<lambda>m. \<lparr>cursor = encodeCursor (mid m), node = m\<rparr>) (pageRows num s g c)"

text \<open>
  Lines 118 to 132. \<^verbatim>\<open>messages[messages.length - 1]\<close> of an empty page is undefined, and
  reading its id throws.
\<close>

definition hasNextPage ::
  "(string \<Rightarrow> int) \<Rightarrow> store \<Rightarrow> group \<Rightarrow> messageConnection \<Rightarrow> error + bool" where
  "hasNextPage num s g c =
     (let msgs = pageRows num s g c in
      if jsLess (int (length msgs)) (jsOr (lastArg c) (firstArg c)) then Inr False
      else (case msgs of
              [] \<Rightarrow> Inl TypeError
            | _ # _ \<Rightarrow>
                Inr (Message_findOne num s (gid g)
                       (if truthyStr (beforeArg c) then Gt (Num (mid (last msgs)))
                        else Lt (Num (mid (last msgs)))) \<noteq> None)))"

section \<open>groupLogic: deleteGroup, leaveGroup, updateGroup\<close>

text \<open>
  Lines 218 to 237. The result of the lookup is used without a test: when it is null,
  \<^verbatim>\<open>group.getUsers()\<close> throws.
\<close>

definition deleteGroup :: "store \<Rightarrow> user option \<Rightarrow> int \<Rightarrow> (error + unit) \<times> store" where
  "deleteGroup s ctx i =
     (case getAuthenticatedUser ctx of
        Inl e \<Rightarrow> (Inl e, s)
      | Inr usr \<Rightarrow>
          (case Group_findOne s i (uid usr) of
             None \<Rightarrow> (Inl TypeError, s)
           | Some grp \<Rightarrow>
               (let usrs = group_getUsers s grp;
                    s1 = group_removeUsers s grp usrs;
                    s2 = Message_destroy s1 (gid grp);
                    s3 = (case icon grp of
                            None \<Rightarrow> s2
                          | Some k \<Rightarrow> if k \<noteq> [] then deleteFile s2 k else s2)
                in (Inr (), group_destroy s3 grp))))"

text \<open>
  Lines 238 to 266. The rejection of line 252 is built and not returned, so the chain goes
  on to \<^verbatim>\<open>group.removeUser\<close>, which throws on null. \<^verbatim>\<open>group.destroy()\<close> on line 260 is
  not awaited; the model runs it.
\<close>

definition leaveGroup :: "store \<Rightarrow> user option \<Rightarrow> int \<Rightarrow> (error + int) \<times> store" where
  "leaveGroup s ctx i =
     (case getAuthenticatedUser ctx of
        Inl e \<Rightarrow> (Inl e, s)
      | Inr usr \<Rightarrow>
          (case Group_findOne s i (uid usr) of
             None \<Rightarrow> (Inl TypeError, s)
           | Some grp \<Rightarrow>
               (let s1 = group_removeUser s grp (uid usr);
                    usrs = group_getUsers s1 grp
                in (Inr i, if usrs = [] then group_destroy s1 grp else s1))))"

record filePayload =
  path :: string
  ftype :: string

record updateGroupInput =
  ug_id :: int
  ug_name :: "string option"
  ug_lastRead :: "int option"
  ug_icon :: "filePayload option"

text \<open>The \<^verbatim>\<open>options\<close> object handed to \<^verbatim>\<open>group.update\<close>: a field is set or absent.\<close>

record groupOptions =
  opt_icon :: "string option"
  opt_name :: "string option"

definition group_update :: "store \<Rightarrow> group \<Rightarrow> groupOptions \<Rightarrow> group \<times> store" where
  "group_update s g opts =
     (let g1 = (case opt_icon opts of None \<Rightarrow> g | Some k \<Rightarrow> g\<lparr>icon := Some k\<rparr>);
          g2 = (case opt_name opts of None \<Rightarrow> g1 | Some n \<Rightarrow> g1\<lparr>gname := n\<rparr>)
      in (g2, s\<lparr>groups := map (\<lambda>h. if gid h = gid g then g2 else h) (groups s)\<rparr>))"

text \<open>
  Lines 267 to 316. The three steps run in the order last-read, icon, name, then
  \<^verbatim>\<open>group.update\<close>. The last-read step does not touch \<^verbatim>\<open>group\<close>; the icon step reads
  \<^verbatim>\<open>group.icon\<close> after the upload; \<^verbatim>\<open>group.update\<close> reads \<^verbatim>\<open>group\<close> last. \<open>key\<close> is the
  key the storage gives the upload. In the last-read step (lines 280 to 283) the old
  rows are read first; \<^verbatim>\<open>user.addLastRead(lastRead)\<close> is an argument of \<^verbatim>\<open>.then\<close>, so it
  is called while the chain is built, before the continuation that removes the old rows
  runs. The new row is therefore added before the old rows are removed, and a new marker
  on the message of the old one is removed with it.
\<close>

definition lastReadStep :: "store \<Rightarrow> user \<Rightarrow> int \<Rightarrow> int option \<Rightarrow> store" where
  "lastReadStep s usr i lr =
     (case lr of
        None \<Rightarrow> s
      | Some m \<Rightarrow>
          if m \<noteq> 0
          then (let oldLastRead = user_getLastRead s usr i;
                    s1 = user_addLastRead s usr m
                in user_removeLastRead s1 usr oldLastRead)
          else s)"

definition iconStep ::
  "store \<Rightarrow> group option \<Rightarrow> filePayload option \<Rightarrow> string \<Rightarrow> groupOptions
     \<Rightarrow> (error + groupOptions) \<times> store" where
  "iconStep s grp ic key opts =
     (case ic of
        None \<Rightarrow> (Inr opts, s)
      | Some _ \<Rightarrow>
          (let s1 = uploadFile s key in
           case grp of
             None \<Rightarrow> (Inl TypeError, s1)
           | Some g \<Rightarrow>
               (Inr (opts\<lparr>opt_icon := Some key\<rparr>),
                (case icon g of
                   None \<Rightarrow> s1
                 | Some k \<Rightarrow> if k \<noteq> [] then deleteFile s1 k else s1))))"

definition nameStep :: "string option \<Rightarrow> groupOptions \<Rightarrow> groupOptions" where
  "nameStep n opts = (if truthyStr n then opts\<lparr>opt_name := n\<rparr> else opts)"

definition updateGroup ::
  "store \<Rightarrow> user option \<Rightarrow> updateGroupInput \<Rightarrow> string \<Rightarrow> (error + group) \<times> store" where
  "updateGroup s ctx inp key =
     (case getAuthenticatedUser ctx of
        Inl e \<Rightarrow> (Inl e, s)
      | Inr usr \<Rightarrow>
          (let grp = Group_findOne s (ug_id inp) (uid usr);
               s1 = lastReadStep s usr (ug_id inp) (ug_lastRead inp)
           in case iconStep s1 grp (ug_icon inp) key \<lparr>opt_icon = None, opt_name = None\<rparr> of
                (Inl e, s2) \<Rightarrow> (Inl e, s2)
              | (Inr opts, s2) \<Rightarrow>
                  (case grp of
                     None \<Rightarrow> (Inl TypeError, s2)
                   | Some g \<Rightarrow>
                       (case group_update s2 g (nameStep (ug_name inp) opts) of
                          (g', s3) \<Rightarrow> (Inr g', s3)))))"

section \<open>userLogic\<close>

text \<open>Lines 323 to 373: the five resolvers of private fields.\<close>

definition userLogic_email :: "user \<Rightarrow> user option \<Rightarrow> error + string" where
  "userLogic_email usr ctx =
     (case getAuthenticatedUser ctx of
        Inl e \<Rightarrow> Inl e
      | Inr currentUser \<Rightarrow>
          if uid currentUser = uid usr then Inr (email currentUser) else Inl Unauthorized)"

text \<open>\<^verbatim>\<open>attributes: ['id', 'username']\<close> (line 338): the two fields the store is asked for.\<close>

definition idAndUsername :: "user \<Rightarrow> int \<times> string" where
  "idAndUsername u = (uid u, username u)"

definition userLogic_friends ::
  "store \<Rightarrow> user \<Rightarrow> user option \<Rightarrow> error + (int \<times> string) list" where
  "userLogic_friends s usr ctx =
     (case getAuthenticatedUser ctx of
        Inl e \<Rightarrow> Inl e
      | Inr currentUser \<Rightarrow>
          if uid currentUser \<noteq> uid usr then Inl Unauthorized
          else Inr (map idAndUsername (user_getFriends s usr)))"

definition userLogic_groups :: "store \<Rightarrow> user \<Rightarrow> user option \<Rightarrow> error + group list" where
  "userLogic_groups s usr ctx =
     (case getAuthenticatedUser ctx of
        Inl e \<Rightarrow> Inl e
      | Inr currentUser \<Rightarrow>
          if uid currentUser \<noteq> uid usr then Inl Unauthorized
          else Inr (user_getGroups s usr))"

definition userLogic_messages :: "store \<Rightarrow> user \<Rightarrow> user option \<Rightarrow> error + message list" where
  "userLogic_messages s usr ctx =
     (case getAuthenticatedUser ctx of
        Inl e \<Rightarrow> Inl e
      | Inr currentUser \<Rightarrow>
          if uid currentUser \<noteq> uid usr then Inl Unauthorized
          else Inr (Message_findAllByUser s (uid usr)))"

definition userLogic_registrationId :: "user \<Rightarrow> user option \<Rightarrow> error + string option" where
  "userLogic_registrationId usr ctx =
     (case getAuthenticatedUser ctx of
        Inl e \<Rightarrow> Inl e
      | Inr currentUser \<Rightarrow>
          if uid currentUser = uid usr then Inr (registrationId currentUser)
          else Inl Unauthorized)"

text \<open>
  Lines 383 to 420. The input fields \<^verbatim>\<open>registrationId\<close> and \<^verbatim>\<open>badgeCount\<close> are tested
  against null and 0 apart from their truthiness; \<^verbatim>\<open>username\<close> and \<^verbatim>\<open>avatar\<close> by
  truthiness alone.
\<close>

record updateUserInput =
  uu_registrationId :: "string js"
  uu_badgeCount :: "int js"
  uu_avatar :: "filePayload option"
  uu_username :: "string option"

text \<open>
  The \<^verbatim>\<open>options\<close> object handed to \<^verbatim>\<open>user.update\<close>: a field is absent (\<open>None\<close>) or set;
  the registration id can be set to null (\<open>Some None\<close>).
\<close>

record userOptions =
  set_registrationId :: "string option option"
  set_badgeCount :: "int option"
  set_username :: "string option"
  set_avatar :: "string option"

definition applyUserOptions :: "userOptions \<Rightarrow> user \<Rightarrow> user" where
  "applyUserOptions opts u =
     (let u1 = (case set_registrationId opts of None \<Rightarrow> u | Some r \<Rightarrow> u\<lparr>registrationId := r\<rparr>);
          u2 = (case set_badgeCount opts of None \<Rightarrow> u1 | Some n \<Rightarrow> u1\<lparr>badgeCount := n\<rparr>);
          u3 = (case set_username opts of None \<Rightarrow> u2 | Some n \<Rightarrow> u2\<lparr>username := n\<rparr>);
          u4 = (case set_avatar opts of None \<Rightarrow> u3 | Some k \<Rightarrow> u3\<lparr>avatar := Some k\<rparr>)
      in u4)"

text \<open>Modelled from the spec: \<^verbatim>\<open>user.update(options)\<close> writes the fields that are set.\<close>

definition user_update :: "store \<Rightarrow> user \<Rightarrow> userOptions \<Rightarrow> user \<times> store" where
  "user_update s u opts =
     (applyUserOptions opts u,
      s\<lparr>users := map (\<lambda>v. if uid v = uid u then applyUserOptions opts v else v) (users s)\<rparr>)"

definition userOptionsOf :: "updateUserInput \<Rightarrow> userOptions" where
  "userOptionsOf inp =
     (let o0 = \<lparr>set_registrationId = None, set_badgeCount = None, set_username = None,
                 set_avatar = None\<rparr>;
          o1 = (case uu_registrationId inp of
                  Undefined \<Rightarrow> o0
                | Null \<Rightarrow> o0\<lparr>set_registrationId := Some None\<rparr>
                | Val r \<Rightarrow> if r \<noteq> [] then o0\<lparr>set_registrationId := Some (Some r)\<rparr> else o0);
          o2 = (case uu_badgeCount inp of
                  Undefined \<Rightarrow> o1
                | Null \<Rightarrow> o1
                | Val n \<Rightarrow> if truthyInt (Some n) \<or> n = 0 then o1\<lparr>set_badgeCount := Some n\<rparr> else o1);
          o3 = (if truthyStr (uu_username inp) then o2\<lparr>set_username := uu_username inp\<rparr>
                else o2)
      in o3)"

definition updateUser ::
  "store \<Rightarrow> user option \<Rightarrow> updateUserInput \<Rightarrow> string \<Rightarrow> (error + user) \<times> store" where
  "updateUser s ctx inp key =
     (case getAuthenticatedUser ctx of
        Inl e \<Rightarrow> (Inl e, s)
      | Inr usr \<Rightarrow>
          (let opts = userOptionsOf inp in
           case uu_avatar inp of
             Some _ \<Rightarrow>
               (let s1 = uploadFile s key;
                    s2 = (case avatar usr of
                            None \<Rightarrow> s1
                          | Some k \<Rightarrow> if k \<noteq> [] then deleteFile s1 k else s1)
                in case user_update s2 usr (opts\<lparr>set_avatar := Some key\<rparr>) of
                     (u', s3) \<Rightarrow> (Inr u', s3))
           | None \<Rightarrow> (case user_update s usr opts of (u', s1) \<Rightarrow> (Inr u', s1))))"

section \<open>subscriptionLogic.messageAdded\<close>

record baseParams =
  bp_query :: string
  bp_context :: "user option"

text \<open>Lines 435 to 447.\<close>

definition messageAdded ::
  "store \<Rightarrow> baseParams \<Rightarrow> int list \<Rightarrow> user option \<Rightarrow> error + baseParams" where
  "messageAdded s bp groupIds ctx =
     (case getAuthenticatedUser ctx of
        Inl e \<Rightarrow> Inl e
      | Inr usr \<Rightarrow>
          (let grps = filter (\<lambda>g. gid g \<in> set groupIds) (user_getGroups s usr) in
           if length groupIds > length grps then Inl Unauthorized
           else Inr (bp\<lparr>bp_context := ctx\<rparr>)))"

section \<open>A sample store\<close>

text \<open>
  Four users, two groups and ten messages, used to run the operations on concrete inputs.
  Alice, Carol and Dave are the members of the group \<open>team\<close>, which holds the messages 1
  to 10; Bob is the only member of \<open>solo\<close>. Bob and Dave have no registration id.
\<close>

definition alice :: user where
  "alice = \<lparr>uid = 1, username = ''alice'', email = ''alice@example.org'', avatar = None,
            registrationId = Some ''tokA'', badgeCount = 0\<rparr>"

definition bob :: user where
  "bob = \<lparr>uid = 2, username = ''bob'', email = ''bob@example.org'', avatar = Some ''bob.png'',
          registrationId = None, badgeCount = 3\<rparr>"

definition carol :: user where
  "carol = \<lparr>uid = 3, username = ''carol'', email = ''carol@example.org'', avatar = None,
            registrationId = Some ''tokC'', badgeCount = 5\<rparr>"

definition dave :: user where
  "dave = \<lparr>uid = 4, username = ''dave'', email = ''dave@example.org'', avatar = None,
           registrationId = None, badgeCount = 7\<rparr>"

definition team :: group where
  "team = \<lparr>gid = 1, gname = ''team'', icon = None\<rparr>"

definition solo :: group where
  "solo = \<lparr>gid = 2, gname = ''solo'', icon = Some ''solo.png''\<rparr>"

definition teamMessage :: "int \<Rightarrow> message" where
  "teamMessage i = \<lparr>mid = i, mtext = ''hi'', userId = 1, groupId = 1, createdAt = 100 + i\<rparr>"

definition exampleStore :: store where
  "exampleStore =
     \<lparr>users = [alice, bob, carol, dave],
      groups = [team, solo],
      messages = map teamMessage [1, 2, 3, 4, 5, 6, 7, 8, 9, 10],
      groupUsers = [(1, 1), (1, 3), (1, 4), (2, 2)],
      friends = [(1, 3), (3, 1)],
      lastReads = [(1, 4)],
      files = [''solo.png'', ''bob.png''],
      sent = []\<rparr>"

lemmas ex_defs =
  exampleStore_def alice_def bob_def carol_def dave_def team_def solo_def teamMessage_def

section \<open>Cursor round trip\<close>

lemma unbase64_b64char: "n < 64 \<Longrightarrow> unbase64 (b64char n) = Some n"
  by (auto simp: unbase64_def b64char_def Let_def)

lemma unbase64_pad: "unbase64 (CHR ''='') = None"
  by (simp add: unbase64_def)

lemma b64char_not_pad: "n < 64 \<Longrightarrow> b64char n \<noteq> CHR ''=''"
  using unbase64_b64char [of n] unbase64_pad by auto

lemma encodeGroups_bound:
  "\<forall>b \<in> set bs. b < 256 \<Longrightarrow> \<forall>q \<in> set (encodeGroups bs). q < 64"
  by (induction bs rule: encodeGroups.induct) auto

lemma byte1:
  "a < 256 \<Longrightarrow> b < 256 \<Longrightarrow> (a div 4 * 4 + (a mod 4 * 16 + b div 16) div 16) mod 256 = (a::nat)"
  by (simp add: div_add1_eq)

lemma byte2:
  assumes "b < 256" and "c < 256"
  shows "((a mod 4 * 16 + b div 16) * 16 + (b mod 16 * 4 + c div 64) div 4) mod 256 = (b::nat)"
proof -
  have c4: "c div 64 < 4" using assms by simp
  have low: "(b mod 16 * 4 + c div 64) div 4 = b mod 16"
    using c4 by (simp add: div_add1_eq)
  have whole: "(a mod 4 * 16 + b div 16) * 16 + b mod 16 = a mod 4 * 256 + b"
    by (simp add: algebra_simps)
  show ?thesis unfolding low whole using assms by simp
qed

lemma byte3:
  assumes "c < 256"
  shows "((b mod 16 * 4 + c div 64) * 64 + c mod 64) mod 256 = (c::nat)"
proof -
  have whole: "(b mod 16 * 4 + c div 64) * 64 + c mod 64 = b mod 16 * 256 + c"
    by (simp add: algebra_simps)
  show ?thesis unfolding whole using assms by simp
qed

lemma group3:
  "a < 256 \<Longrightarrow> b < 256 \<Longrightarrow> c < 256 \<Longrightarrow>
   decodeGroups (a div 4 # (a mod 4 * 16 + b div 16) # (b mod 16 * 4 + c div 64) # c mod 64 # r)
     = a # b # c # decodeGroups r"
  by (simp only: decodeGroups.simps byte1 byte2 byte3 append.simps)

lemma group2:
  "a < 256 \<Longrightarrow> b < 256 \<Longrightarrow>
   decodeGroups [a div 4, a mod 4 * 16 + b div 16, b mod 16 * 4] = [a, b]"
  using byte2 [of b 0 a] by (simp only: decodeGroups.simps byte1) simp

lemma group1: "a < 256 \<Longrightarrow> decodeGroups [a div 4, a mod 4 * 16] = [a]"
  using byte1 [of a 0] by (simp only: decodeGroups.simps) simp

lemma decode_encode_groups:
  "\<forall>b \<in> set bs. b < 256 \<Longrightarrow> decodeGroups (encodeGroups bs) = bs"
proof (induction bs rule: encodeGroups.induct)
  case (1 a b c r)
  then have "decodeGroups (encodeGroups r) = r" by simp
  with 1 show ?case
    by (simp only: encodeGroups.simps append.simps) (simp only: group3 list.set ball_simps)
next
  case (2 a b)
  then show ?case
    by (simp only: encodeGroups.simps) (simp add: group2 del: decodeGroups.simps)
next
  case (3 a)
  then show ?case
    by (simp only: encodeGroups.simps) (simp add: group1 del: decodeGroups.simps)
next
  case 4
  then show ?case by simp
qed

lemma sextets_encoded:
  "\<forall>q \<in> set qs. q < 64 \<Longrightarrow> sextets (map b64char qs @ padding n) = qs"
  by (induction qs) (auto simp: unbase64_b64char b64char_not_pad padding_def unbase64_pad)

lemma fromBase64_toBase64: "fromBase64 (toBase64 bs) = bs"
proof -
  have bytes: "\<forall>b \<in> set (map of_char bs :: nat list). b < 256" by simp
  then have "sextets (toBase64 bs) = encodeGroups (map of_char bs)"
    unfolding toBase64_def by (intro sextets_encoded encodeGroups_bound)
  then show ?thesis
    unfolding fromBase64_def using decode_encode_groups [OF bytes] by (simp add: comp_def)
qed

lemma readDigits_append:
  "readDigits acc (xs @ ys) =
     (case readDigits acc xs of None \<Rightarrow> None | Some a \<Rightarrow> readDigits a ys)"
  by (induction xs arbitrary: acc) (auto split: option.splits)

lemma digitVal_digit: "d < 10 \<Longrightarrow> digitVal (char_of (48 + d)) = Some d"
  by (simp add: digitVal_def)

lemma digitVal_minus: "digitVal (CHR ''-'') = None"
  by (simp add: digitVal_def)

lemma readDigits_digits: "readDigits 0 (digits n) = Some n"
proof (induction n rule: digits.induct)
  case (1 n)
  show ?case
  proof (cases "n < 10")
    case True
    then show ?thesis by (subst digits.simps) (simp add: digitVal_digit)
  next
    case False
    with 1 have "readDigits 0 (digits (n div 10)) = Some (n div 10)" by simp
    with False show ?thesis
      by (subst digits.simps) (simp add: readDigits_append digitVal_digit)
  qed
qed

lemma digits_nonempty: "digits n \<noteq> []"
  by (subst digits.simps) simp

lemma digits_digitVal: "c \<in> set (digits n) \<Longrightarrow> digitVal c \<noteq> None"
proof (induction n rule: digits.induct)
  case (1 n)
  show ?case
  proof (cases "n < 10")
    case True
    with 1(2) show ?thesis by (subst (asm) digits.simps) (simp add: digitVal_digit)
  next
    case False
    from 1(2) False have "c \<in> set (digits (n div 10)) \<or> c = char_of (48 + n mod 10)"
      by (subst (asm) digits.simps) auto
    with 1(1) False show ?thesis by (auto simp: digitVal_digit)
  qed
qed

lemma readDecimal_digits: "readDecimal (digits n) = Some (int n)"
proof (cases "digits n")
  case Nil
  then show ?thesis using digits_nonempty by simp
next
  case (Cons c cs)
  then have "c \<in> set (digits n)" by simp
  then have "c \<noteq> CHR ''-''" using digits_digitVal digitVal_minus by metis
  then show ?thesis
    using Cons readDigits_digits [of n] by (simp add: readDecimal_def)
qed

lemma readDecimal_toString: "readDecimal (toString n) = Some n"
proof (cases "n < 0")
  case True
  then show ?thesis
    by (simp add: toString_def readDecimal_def readDigits_digits digits_nonempty)
next
  case False
  then show ?thesis by (simp add: toString_def readDecimal_digits)
qed

text \<open>
  Claim C1. Decoding the cursor made from an id gives back the decimal text of that id,
  and that text reads as the id itself. This holds for every integer id, the non-negative
  ones among them.
\<close>

theorem cursor_roundtrip:
  "decodeCursor (encodeCursor n) = toString n \<and>
   readDecimal (decodeCursor (encodeCursor n)) = Some n"
  by (simp add: decodeCursor_def encodeCursor_def fromBase64_toBase64 readDecimal_toString)

section \<open>Message creation\<close>

lemma incrementAll_frame:
  "incrementAll s us = (upd, s') \<Longrightarrow>
     messages s' = messages s \<and> groups s' = groups s \<and> groupUsers s' = groupUsers s \<and>
     sent s' = sent s \<and> upd = us"
proof (induction us arbitrary: s upd s')
  case Nil
  then show ?case by simp
next
  case (Cons u us)
  obtain d2 s2 where r: "incrementAll (snd (user_increment s u)) us = (d2, s2)"
    by (cases "incrementAll (snd (user_increment s u)) us") auto
  from Cons.IH [OF r] Cons.prems r show ?case
    by (auto simp: user_increment_def split: prod.splits)
qed

lemma fold_send_messages:
  "messages (fold (\<lambda>usr st. sendNotification st (f usr)) us s) = messages s"
  by (induction us arbitrary: s) (auto simp: sendNotification_def)

lemma fanOut_messages: "messages (fanOut s author g t) = messages s"
proof -
  obtain d s' where r: "incrementAll s (filter (\<lambda>usr. uid usr \<noteq> uid author) (group_getUsers s g)) = (d, s')"
    by (cases "incrementAll s (filter (\<lambda>usr. uid usr \<noteq> uid author) (group_getUsers s g))") auto
  from incrementAll_frame [OF r] r show ?thesis
    by (simp add: fanOut_def Let_def fold_send_messages)
qed

text \<open>
  Claim C7. A message is created only for a member of the target group: a created message
  has the authenticated user as its author, the given group and text, and is the one row
  added to the store; every other call rejects with Unauthorized, leaves the store as it
  was, and is a call by someone who is not a member (or by nobody).
\<close>

theorem createMessage_member_only:
  "(case fst (createMessage s ctx t g now) of
      Inr m \<Rightarrow>
        (\<exists>usr h. ctx = Some usr \<and> h \<in> set (groups s) \<and> gid h = g \<and>
                 (g, uid usr) \<in> set (groupUsers s) \<and> userId m = uid usr) \<and>
        groupId m = g \<and> mtext m = t \<and>
        messages (snd (createMessage s ctx t g now)) = messages s @ [m]
    | Inl e \<Rightarrow>
        e = Unauthorized \<and> snd (createMessage s ctx t g now) = s \<and>
        \<not> (\<exists>usr h. ctx = Some usr \<and> h \<in> set (groups s) \<and> gid h = g \<and>
                   (g, uid usr) \<in> set (groupUsers s)))"
proof (cases ctx)
  case None
  then show ?thesis by (simp add: createMessage_def getAuthenticatedUser_def)
next
  case (Some usr)
  show ?thesis
  proof (cases "filter (\<lambda>h. gid h = g) (user_getGroups s usr)")
    case Nil
    then have "\<not> (\<exists>h. h \<in> set (groups s) \<and> gid h = g \<and> (g, uid usr) \<in> set (groupUsers s))"
      by (auto simp: user_getGroups_def filter_empty_conv)
    with Nil Some show ?thesis
      by (simp add: createMessage_def getAuthenticatedUser_def)
  next
    case (Cons grp rest)
    then have "grp \<in> set (filter (\<lambda>h. gid h = g) (user_getGroups s usr))" by simp
    then have mem: "grp \<in> set (groups s) \<and> gid grp = g \<and> (g, uid usr) \<in> set (groupUsers s)"
      by (auto simp: user_getGroups_def)
    with Cons Some show ?thesis
      by (auto simp: createMessage_def getAuthenticatedUser_def Message_create_def Let_def
          fanOut_messages)
  qed
qed

theorem createMessage_member_only_witness:
  "fst (createMessage exampleStore (Some alice) ''hello'' 1 500) =
     Inr \<lparr>mid = 11, mtext = ''hello'', userId = 1, groupId = 1, createdAt = 500\<rparr> \<and>
   length (messages (snd (createMessage exampleStore (Some alice) ''hello'' 1 500))) = 11 \<and>
   createMessage exampleStore (Some bob) ''hello'' 1 500 = (Inl Unauthorized, exampleStore)"
proof -
  have a: "fst (createMessage exampleStore (Some alice) ''hello'' 1 500) =
     Inr \<lparr>mid = 11, mtext = ''hello'', userId = 1, groupId = 1, createdAt = 500\<rparr>"
    by code_simp
  have b: "fst (createMessage exampleStore (Some bob) ''hello'' 1 500) = Inl Unauthorized"
    by code_simp
  from createMessage_member_only [of exampleStore "Some alice" "''hello''" 1 500] a
  have 1: "messages (snd (createMessage exampleStore (Some alice) ''hello'' 1 500)) =
        messages exampleStore @ [\<lparr>mid = 11, mtext = ''hello'', userId = 1, groupId = 1, createdAt = 500\<rparr>]"
    by simp
  from createMessage_member_only [of exampleStore "Some bob" "''hello''" 1 500] b
  have 2: "snd (createMessage exampleStore (Some bob) ''hello'' 1 500) = exampleStore"
    by simp
  from a b 1 2 show ?thesis
    by (simp add: prod_eq_iff) (simp add: exampleStore_def)
qed

section \<open>Private fields of a user\<close>

text \<open>
  Claim C8. For an acting user and a target user with different ids, the five resolvers
  of private fields (email, registration id, friends, groups, messages by user) all
  reject with Unauthorized; with equal ids each resolves to the value of its field. So a
  value is returned only when the ids are equal.
\<close>

theorem private_fields_identity_gate:
  "(uid currentUser \<noteq> uid usr \<longrightarrow>
      userLogic_email usr (Some currentUser) = Inl Unauthorized \<and>
      userLogic_registrationId usr (Some currentUser) = Inl Unauthorized \<and>
      userLogic_friends s usr (Some currentUser) = Inl Unauthorized \<and>
      userLogic_groups s usr (Some currentUser) = Inl Unauthorized \<and>
      userLogic_messages s usr (Some currentUser) = Inl Unauthorized) \<and>
   (uid currentUser = uid usr \<longrightarrow>
      userLogic_email usr (Some currentUser) = Inr (email currentUser) \<and>
      userLogic_registrationId usr (Some currentUser) = Inr (registrationId currentUser) \<and>
      userLogic_friends s usr (Some currentUser) =
        Inr (map idAndUsername (user_getFriends s usr)) \<and>
      userLogic_groups s usr (Some currentUser) = Inr (user_getGroups s usr) \<and>
      userLogic_messages s usr (Some currentUser) = Inr (Message_findAllByUser s (uid usr)))"
  by (simp add: userLogic_email_def userLogic_registrationId_def userLogic_friends_def
      userLogic_groups_def userLogic_messages_def getAuthenticatedUser_def)

theorem private_fields_identity_gate_witness:
  "uid bob \<noteq> uid alice \<and>
   userLogic_email alice (Some bob) = Inl Unauthorized \<and>
   userLogic_registrationId alice (Some bob) = Inl Unauthorized \<and>
   userLogic_friends exampleStore alice (Some bob) = Inl Unauthorized \<and>
   userLogic_groups exampleStore alice (Some bob) = Inl Unauthorized \<and>
   userLogic_messages exampleStore alice (Some bob) = Inl Unauthorized \<and>
   userLogic_email alice (Some alice) = Inr ''alice@example.org'' \<and>
   userLogic_registrationId alice (Some alice) = Inr (Some ''tokA'') \<and>
   userLogic_friends exampleStore alice (Some alice) = Inr [(3, ''carol'')] \<and>
   userLogic_groups exampleStore alice (Some alice) = Inr [team]"
proof -
  have ne: "uid bob \<noteq> uid alice" by (simp add: ex_defs)
  have fr: "map idAndUsername (user_getFriends exampleStore alice) = [(3, ''carol'')]"
    by (simp add: user_getFriends_def idAndUsername_def ex_defs)
  have gr: "user_getGroups exampleStore alice = [team]"
    by (simp add: user_getGroups_def ex_defs)
  have em: "email alice = ''alice@example.org''" "registrationId alice = Some ''tokA''"
    by (simp_all add: alice_def)
  from private_fields_identity_gate [of bob alice exampleStore]
    private_fields_identity_gate [of alice alice exampleStore] ne fr gr em
  show ?thesis by simp
qed

section \<open>Subscription to messageAdded\<close>

lemma owned_count:
  assumes "distinct (map gid gs)"
  shows "length (filter (\<lambda>g. gid g \<in> set groupIds) gs) = card (set groupIds \<inter> gid ` set gs)"
proof -
  let ?f = "filter (\<lambda>g. gid g \<in> set groupIds) gs"
  have "distinct (map gid ?f)" using assms by (rule distinct_map_filter)
  then have "card (set (map gid ?f)) = length (map gid ?f)" by (rule distinct_card)
  moreover have "set (map gid ?f) = set groupIds \<inter> gid ` set gs" by auto
  ultimately show ?thesis by simp
qed

lemma more_claimed_than_owned:
  "length groupIds > card (set groupIds \<inter> M) \<longleftrightarrow> \<not> (distinct groupIds \<and> set groupIds \<subseteq> M)"
proof (cases "distinct groupIds \<and> set groupIds \<subseteq> M")
  case True
  then have "set groupIds \<inter> M = set groupIds" by auto
  with True show ?thesis by (simp add: distinct_card)
next
  case False
  have le: "card (set groupIds \<inter> M) \<le> card (set groupIds)"
    by (rule card_mono) auto
  show ?thesis
  proof (cases "distinct groupIds")
    case True
    with False have "set groupIds \<inter> M \<subset> set groupIds" by auto
    then have "card (set groupIds \<inter> M) < card (set groupIds)"
      by (intro psubset_card_mono) auto
    with False show ?thesis using card_length [of groupIds] by simp
  next
    case nd: False
    have "card (set groupIds) \<noteq> length groupIds" using nd card_distinct by blast
    then have "card (set groupIds) < length groupIds"
      using card_length [of groupIds] by simp
    with le False show ?thesis by simp
  qed
qed

text \<open>
  What the test of line 440 decides, for every claimed list: the request is rejected
  exactly when the list names a group the user does not belong to or names a group
  twice. Group ids are unique in the store.
\<close>

lemma messageAdded_rejects:
  assumes "distinct (map gid (groups s))"
  shows "messageAdded s bp groupIds (Some usr) = Inl Unauthorized \<longleftrightarrow>
         \<not> (distinct groupIds \<and> set groupIds \<subseteq> gid ` set (user_getGroups s usr))"
proof -
  have "distinct (map gid (user_getGroups s usr))"
    unfolding user_getGroups_def using assms by (rule distinct_map_filter)
  from owned_count [OF this, of groupIds]
  have "length (filter (\<lambda>g. gid g \<in> set groupIds) (user_getGroups s usr)) =
        card (set groupIds \<inter> gid ` set (user_getGroups s usr))" .
  then show ?thesis
    using more_claimed_than_owned [of groupIds "gid ` set (user_getGroups s usr)"]
    by (simp add: messageAdded_def getAuthenticatedUser_def Let_def)
qed

text \<open>On a list without repetition the test is the subset test.\<close>

lemma messageAdded_distinct_ids:
  assumes "distinct (map gid (groups s))" and "distinct groupIds"
  shows "messageAdded s bp groupIds (Some usr) = Inl Unauthorized \<longleftrightarrow>
         \<not> set groupIds \<subseteq> gid ` set (user_getGroups s usr)"
  using messageAdded_rejects [OF assms(1), of bp groupIds usr] assms(2) by simp

text \<open>
  Claim C9 on the source. Alice belongs to group 1 and claims the list [1, 1]. The set
  of claimed ids is within her memberships, so the claim has the request succeed, as it
  does for the list [1]. The test compares the length of the claimed list, 2, with the
  number of her groups among the claimed ids, 1, and rejects with Unauthorized.
\<close>

theorem messageAdded_repeated_id_eval:
  "set [1, 1] \<subseteq> gid ` set (user_getGroups exampleStore alice) \<and>
   messageAdded exampleStore \<lparr>bp_query = ''q'', bp_context = None\<rparr> [1, 1] (Some alice) =
     Inl Unauthorized \<and>
   messageAdded exampleStore \<lparr>bp_query = ''q'', bp_context = None\<rparr> [1] (Some alice) =
     Inr \<lparr>bp_query = ''q'', bp_context = Some alice\<rparr>"
  by (simp add: messageAdded_def getAuthenticatedUser_def user_getGroups_def ex_defs)

section \<open>Profile update\<close>

lemma applyUserOptions_fields:
  "uid (applyUserOptions opts v) = uid v \<and>
   email (applyUserOptions opts v) = email v \<and>
   registrationId (applyUserOptions opts v) =
     (case set_registrationId opts of None \<Rightarrow> registrationId v | Some r \<Rightarrow> r) \<and>
   badgeCount (applyUserOptions opts v) =
     (case set_badgeCount opts of None \<Rightarrow> badgeCount v | Some n \<Rightarrow> n) \<and>
   username (applyUserOptions opts v) =
     (case set_username opts of None \<Rightarrow> username v | Some n \<Rightarrow> n) \<and>
   avatar (applyUserOptions opts v) =
     (case set_avatar opts of None \<Rightarrow> avatar v | Some k \<Rightarrow> Some k)"
  by (simp add: applyUserOptions_def Let_def split: option.splits)

lemma userOptionsOf_fields:
  "set_registrationId (userOptionsOf inp) =
     (case uu_registrationId inp of
        Undefined \<Rightarrow> None | Null \<Rightarrow> Some None
      | Val r \<Rightarrow> if r \<noteq> [] then Some (Some r) else None) \<and>
   set_badgeCount (userOptionsOf inp) =
     (case uu_badgeCount inp of Undefined \<Rightarrow> None | Null \<Rightarrow> None | Val n \<Rightarrow> Some n) \<and>
   set_username (userOptionsOf inp) =
     (case uu_username inp of None \<Rightarrow> None | Some n \<Rightarrow> if n \<noteq> [] then Some n else None) \<and>
   set_avatar (userOptionsOf inp) = None"
  by (simp add: userOptionsOf_def Let_def truthyStr_def truthyInt_def
      split: js.splits option.splits)






section \<open>Fan-out of a created message\<close>

lemma incrementAll_Cons:
  "incrementAll s (u # us) =
     (u # fst (incrementAll (snd (user_increment s u)) us),
      snd (incrementAll (snd (user_increment s u)) us))"
  by (simp add: user_increment_def split_beta)

lemma incrementAll_users:
  "distinct (map uid us) \<Longrightarrow>
   users (snd (incrementAll s us)) =
     map (\<lambda>v. if uid v \<in> uid ` set us then v\<lparr>badgeCount := badgeCount v + 1\<rparr> else v) (users s)"
proof (induction us arbitrary: s)
  case Nil
  then show ?case by simp
next
  case (Cons u us)
  let ?s1 = "snd (user_increment s u)"
  have s1: "users ?s1 =
      map (\<lambda>v. if uid v = uid u then v\<lparr>badgeCount := badgeCount v + 1\<rparr> else v) (users s)"
    by (simp add: user_increment_def)
  from Cons.prems have d: "distinct (map uid us)" and nu: "uid u \<notin> uid ` set us" by auto
  have "users (snd (incrementAll s (u # us))) = users (snd (incrementAll ?s1 us))"
    by (simp only: incrementAll_Cons snd_conv)
  also have "\<dots> = map (\<lambda>v. if uid v \<in> uid ` set us then v\<lparr>badgeCount := badgeCount v + 1\<rparr> else v)
                    (users ?s1)"
    using Cons.IH [OF d] .
  also have "\<dots> = map (\<lambda>v. if uid v \<in> uid ` set (u # us)
                          then v\<lparr>badgeCount := badgeCount v + 1\<rparr> else v) (users s)"
    unfolding s1 using nu by auto
  finally show ?case .
qed

lemma incrementAll_instances: "fst (incrementAll s us) = us"
  by (induction us arbitrary: s) (simp_all add: incrementAll_Cons del: incrementAll.simps(2))

lemma incrementAll_sent: "sent (snd (incrementAll s us)) = sent s"
  by (induction us arbitrary: s)
    (simp_all add: incrementAll_Cons user_increment_def del: incrementAll.simps(2))

lemma fold_send_sent:
  "sent (fold (\<lambda>usr st. sendNotification st (f usr)) us s) = sent s @ map f us"
  by (induction us arbitrary: s) (auto simp: sendNotification_def)

lemma fold_send_users:
  "users (fold (\<lambda>usr st. sendNotification st (f usr)) us s) = users s"
  by (induction us arbitrary: s) (auto simp: sendNotification_def)

lemma fanOut_sent:
  "sent (fanOut s author g t) =
     sent s @ map (mkNotification author g t)
       (filter (\<lambda>usr. truthyStr (registrationId usr))
          (filter (\<lambda>usr. uid usr \<noteq> uid author) (group_getUsers s g)))"
proof -
  let ?others = "filter (\<lambda>usr. uid usr \<noteq> uid author) (group_getUsers s g)"
  show ?thesis
    by (simp add: fanOut_def Let_def split_beta incrementAll_instances fold_send_sent
        incrementAll_sent)
qed

lemma fanOut_users:
  assumes "distinct (map uid (users s))"
  shows "users (fanOut s author g t) =
     map (\<lambda>v. if (gid g, uid v) \<in> set (groupUsers s) \<and> uid v \<noteq> uid author
               then v\<lparr>badgeCount := badgeCount v + 1\<rparr> else v) (users s)"
proof -
  let ?others = "filter (\<lambda>usr. uid usr \<noteq> uid author) (group_getUsers s g)"
  have d: "distinct (map uid ?others)"
    unfolding group_getUsers_def using assms by (simp add: distinct_map_filter)
  have "users (fanOut s author g t) = users (snd (incrementAll s ?others))"
    by (simp add: fanOut_def Let_def split_beta fold_send_users)
  also have "\<dots> = map (\<lambda>v. if uid v \<in> uid ` set ?others
                          then v\<lparr>badgeCount := badgeCount v + 1\<rparr> else v) (users s)"
    by (rule incrementAll_users [OF d])
  also have "\<dots> = map (\<lambda>v. if (gid g, uid v) \<in> set (groupUsers s) \<and> uid v \<noteq> uid author
               then v\<lparr>badgeCount := badgeCount v + 1\<rparr> else v) (users s)"
  proof (rule map_cong [OF refl])
    fix v assume v: "v \<in> set (users s)"
    have "uid v \<in> uid ` set ?others \<longleftrightarrow>
            (gid g, uid v) \<in> set (groupUsers s) \<and> uid v \<noteq> uid author"
      using v by (auto simp: group_getUsers_def)
    then show "(if uid v \<in> uid ` set ?others then v\<lparr>badgeCount := badgeCount v + 1\<rparr> else v) =
          (if (gid g, uid v) \<in> set (groupUsers s) \<and> uid v \<noteq> uid author
           then v\<lparr>badgeCount := badgeCount v + 1\<rparr> else v)"
      by simp
  qed
  finally show ?thesis .
qed

lemma one_row_per_id:
  "distinct (map uid xs) \<Longrightarrow> a \<in> uid ` set xs \<Longrightarrow> length (filter (\<lambda>v. uid v = a) xs) = 1"
proof (induction xs)
  case Nil
  then show ?case by simp
next
  case (Cons x xs)
  show ?case
  proof (cases "uid x = a")
    case True
    with Cons.prems have "a \<notin> uid ` set xs" by auto
    then have "filter (\<lambda>v. uid v = a) xs = []" by (auto simp: filter_empty_conv)
    with True show ?thesis by simp
  next
    case False
    with Cons show ?thesis by auto
  qed
qed

lemma others_count:
  assumes "distinct (map uid (users s))" and "uid author \<in> uid ` set (group_getUsers s g)"
  shows "length (filter (\<lambda>usr. uid usr \<noteq> uid author) (group_getUsers s g)) + 1 =
         length (group_getUsers s g)"
proof -
  let ?m = "group_getUsers s g"
  have d: "distinct (map uid ?m)"
    unfolding group_getUsers_def using assms(1) by (simp add: distinct_map_filter)
  have "length (filter (\<lambda>v. uid v = uid author) ?m) = 1"
    using d assms(2) by (rule one_row_per_id)
  moreover have "length (filter (\<lambda>v. uid v = uid author) ?m) +
        length (filter (\<lambda>v. \<not> uid v = uid author) ?m) = length ?m"
    by (rule sum_length_filter_compl)
  ultimately show ?thesis by simp
qed

text \<open>
  The registration id of a stored user is a device token or null, never the empty text.
  The one writer of the field in the source, \<^verbatim>\<open>updateUser\<close>, keeps it so: it writes a
  non-empty text or null (line 389).
\<close>

lemma updateUser_keeps_registrationIds:
  assumes "list_all (\<lambda>v. registrationId v \<noteq> Some []) (users s)"
  shows "list_all (\<lambda>v. registrationId v \<noteq> Some []) (users (snd (updateUser s ctx inp key)))"
proof (cases ctx)
  case None
  with assms show ?thesis by (simp add: updateUser_def getAuthenticatedUser_def)
next
  case (Some usr)
  let ?opts = "case uu_avatar inp of
                 None \<Rightarrow> userOptionsOf inp
               | Some p \<Rightarrow> (userOptionsOf inp)\<lparr>set_avatar := Some key\<rparr>"
  have r: "set_registrationId ?opts \<noteq> Some (Some [])"
    using userOptionsOf_fields [of inp] by (auto split: option.splits js.splits if_splits)
  have keep: "registrationId (applyUserOptions ?opts v) \<noteq> Some []"
    if "registrationId v \<noteq> Some []" for v
    using applyUserOptions_fields [of ?opts v] r that by (auto split: option.splits)
  have "users (snd (updateUser s ctx inp key)) =
        map (\<lambda>v. if uid v = uid usr then applyUserOptions ?opts v else v) (users s)"
    using Some
    by (simp add: updateUser_def getAuthenticatedUser_def user_update_def Let_def
        uploadFile_def deleteFile_def split: option.splits)
  with assms keep show ?thesis by (auto simp: list_all_iff)
qed

text \<open>
  Claim C6. When a member creates a message, the stored badge count of every other
  member of the group goes up by one and no other row changes: the author's own count
  stays, and with N members there are at most N - 1 increments. One notification is
  handed to the transport for each of those other members whose registration id is not
  null, in the order of the members. It carries the title made of the author's name,
  \<open>@\<close> and the group's name, the text as body, the member's registration id as
  recipient, and as badge the count the member had plus one, which is the count just
  stored. User ids are unique in the store, no stored registration id is the empty text,
  and the author is one of the rows.
\<close>

theorem createMessage_fanOut:
  assumes "distinct (map uid (users s))"
    and "list_all (\<lambda>v. registrationId v \<noteq> Some []) (users s)"
    and "uid usr \<in> uid ` set (users s)"
    and "filter (\<lambda>h. gid h = g) (user_getGroups s usr) = grp # rest"
  shows
    "users (snd (createMessage s (Some usr) t g now)) =
       map (\<lambda>v. if (g, uid v) \<in> set (groupUsers s) \<and> uid v \<noteq> uid usr
                 then v\<lparr>badgeCount := badgeCount v + 1\<rparr> else v) (users s) \<and>
     length (filter (\<lambda>v. (g, uid v) \<in> set (groupUsers s) \<and> uid v \<noteq> uid usr) (users s)) \<le>
       length (group_getUsers s grp) - 1 \<and>
     sent (snd (createMessage s (Some usr) t g now)) =
       sent s @ map (mkNotification usr grp t)
         (filter (\<lambda>v. (g, uid v) \<in> set (groupUsers s) \<and> uid v \<noteq> uid usr \<and>
                       registrationId v \<noteq> None) (users s)) \<and>
     (\<forall>v. title (mkNotification usr grp t v) = username usr @ '' @ '' @ gname grp \<and>
          body (mkNotification usr grp t v) = t \<and>
          badge (mkNotification usr grp t v) = badgeCount v + 1 \<and>
          (\<forall>r. registrationId v = Some r \<longrightarrow> toReg (mkNotification usr grp t v) = r))"
proof -
  let ?s' = "snd (Message_create s (uid usr) t g now)"
  have grp: "grp \<in> set (filter (\<lambda>h. gid h = g) (user_getGroups s usr))"
    using assms(4) by simp
  then have g: "gid grp = g" and mem: "(g, uid usr) \<in> set (groupUsers s)"
    by (auto simp: user_getGroups_def)
  have same: "users ?s' = users s" "groupUsers ?s' = groupUsers s" "sent ?s' = sent s"
    by (simp_all add: Message_create_def Let_def)
  then have gu: "group_getUsers ?s' grp = group_getUsers s grp"
    by (simp add: group_getUsers_def)
  have run: "snd (createMessage s (Some usr) t g now) = fanOut ?s' usr grp t"
    using assms(4) by (simp add: createMessage_def getAuthenticatedUser_def split_beta)
  have d: "distinct (map uid (users ?s'))" using assms(1) same by simp
  have 1: "users (snd (createMessage s (Some usr) t g now)) =
       map (\<lambda>v. if (g, uid v) \<in> set (groupUsers s) \<and> uid v \<noteq> uid usr
                 then v\<lparr>badgeCount := badgeCount v + 1\<rparr> else v) (users s)"
    unfolding run using fanOut_users [OF d, of usr grp t] same g by simp
  have "uid usr \<in> uid ` set (group_getUsers s grp)"
    using assms(3) mem g by (auto simp: group_getUsers_def)
  from others_count [OF assms(1) this]
  have 2: "length (filter (\<lambda>v. (g, uid v) \<in> set (groupUsers s) \<and> uid v \<noteq> uid usr) (users s)) \<le>
       length (group_getUsers s grp) - 1"
    using g by (simp add: group_getUsers_def conj_commute)
  have truthy: "truthyStr (registrationId v) \<longleftrightarrow> registrationId v \<noteq> None"
    if "v \<in> set (users s)" for v
    using assms(2) that by (auto simp: list_all_iff truthyStr_def split: option.splits)
  have flt: "filter (\<lambda>v. (g, uid v) \<in> set (groupUsers s) \<and> uid v \<noteq> uid usr \<and>
                       truthyStr (registrationId v)) (users s) =
        filter (\<lambda>v. (g, uid v) \<in> set (groupUsers s) \<and> uid v \<noteq> uid usr \<and>
                       registrationId v \<noteq> None) (users s)"
    by (rule filter_cong) (use truthy in auto)
  have "sent (snd (createMessage s (Some usr) t g now)) =
       sent s @ map (mkNotification usr grp t)
         (filter (\<lambda>v. (g, uid v) \<in> set (groupUsers s) \<and> uid v \<noteq> uid usr \<and>
                       truthyStr (registrationId v)) (users s))"
    unfolding run fanOut_sent gu same using g
    by (simp add: group_getUsers_def conj_commute conj_left_commute)
  then have 3: "sent (snd (createMessage s (Some usr) t g now)) =
       sent s @ map (mkNotification usr grp t)
         (filter (\<lambda>v. (g, uid v) \<in> set (groupUsers s) \<and> uid v \<noteq> uid usr \<and>
                       registrationId v \<noteq> None) (users s))"
    by (simp only: flt)
  have 4: "\<forall>v. title (mkNotification usr grp t v) = username usr @ '' @ '' @ gname grp \<and>
          body (mkNotification usr grp t v) = t \<and>
          badge (mkNotification usr grp t v) = badgeCount v + 1 \<and>
          (\<forall>r. registrationId v = Some r \<longrightarrow> toReg (mkNotification usr grp t v) = r)"
    by (auto simp: mkNotification_def)
  from 1 2 3 4 show ?thesis by blast
qed

theorem createMessage_fanOut_witness:
  "distinct (map uid (users exampleStore)) \<and>
   list_all (\<lambda>v. registrationId v \<noteq> Some []) (users exampleStore) \<and>
   uid alice \<in> uid ` set (users exampleStore) \<and>
   filter (\<lambda>h. gid h = 1) (user_getGroups exampleStore alice) = [team] \<and>
   map badgeCount (users (snd (createMessage exampleStore (Some alice) ''hello'' 1 500))) =
     [0, 3, 6, 8] \<and>
   length (group_getUsers exampleStore team) = 3 \<and>
   sent (snd (createMessage exampleStore (Some alice) ''hello'' 1 500)) =
     [mkNotification alice team ''hello'' carol] \<and>
   title (mkNotification alice team ''hello'' carol) = ''alice @ team'' \<and>
   toReg (mkNotification alice team ''hello'' carol) = ''tokC'' \<and>
   badge (mkNotification alice team ''hello'' carol) = 6"
proof -
  have d: "distinct (map uid (users exampleStore))" by (simp add: ex_defs)
  have r: "list_all (\<lambda>v. registrationId v \<noteq> Some []) (users exampleStore)"
    by (simp add: ex_defs)
  have a: "uid alice \<in> uid ` set (users exampleStore)" by (simp add: ex_defs)
  have f: "filter (\<lambda>h. gid h = 1) (user_getGroups exampleStore alice) = [team]"
    by (simp add: user_getGroups_def ex_defs)
  have n: "username alice = ''alice''" "gname team = ''team''" "badgeCount carol = 5"
    "registrationId carol = Some ''tokC''"
    by (simp_all add: ex_defs)
  have len: "length (group_getUsers exampleStore team) = 3"
    by (simp add: group_getUsers_def ex_defs)
  from createMessage_fanOut [OF d r a f, of "''hello''" 500] d r a f n len
  show ?thesis by (simp add: ex_defs)
qed

section \<open>Leaving, deleting and updating a group\<close>

lemma Group_findOne_Some:
  "Group_findOne s i member = Some grp \<Longrightarrow>
     grp \<in> set (groups s) \<and> gid grp = i \<and> (i, member) \<in> set (groupUsers s)"
  by (auto simp: Group_findOne_def find_Some_iff)

lemma Group_findOne_None:
  "Group_findOne s i member = None \<longleftrightarrow>
     \<not> (\<exists>h. h \<in> set (groups s) \<and> gid h = i \<and> (i, member) \<in> set (groupUsers s))"
  by (auto simp: Group_findOne_def find_None_iff)

text \<open>A lookup that finds nothing ends each of the three operations in a TypeError.\<close>

lemma leaveGroup_not_found:
  "Group_findOne s i (uid usr) = None \<Longrightarrow> leaveGroup s (Some usr) i = (Inl TypeError, s)"
  by (simp add: leaveGroup_def getAuthenticatedUser_def)

lemma deleteGroup_not_found:
  "Group_findOne s i (uid usr) = None \<Longrightarrow> deleteGroup s (Some usr) i = (Inl TypeError, s)"
  by (simp add: deleteGroup_def getAuthenticatedUser_def)

lemma updateGroup_not_found:
  "Group_findOne s (ug_id inp) (uid usr) = None \<Longrightarrow>
     fst (updateGroup s (Some usr) inp key) = Inl TypeError"
  by (simp add: updateGroup_def getAuthenticatedUser_def iconStep_def Let_def
      split: option.splits)

lemma updateGroup_not_found_writes:
  "Group_findOne s (ug_id inp) (uid usr) = None \<Longrightarrow>
     lastReads (snd (updateGroup s (Some usr) inp key)) =
       lastReads (lastReadStep s usr (ug_id inp) (ug_lastRead inp)) \<and>
     files (snd (updateGroup s (Some usr) inp key)) =
       (case ug_icon inp of None \<Rightarrow> files s | Some p \<Rightarrow> files s @ [key])"
  by (simp add: updateGroup_def getAuthenticatedUser_def iconStep_def Let_def uploadFile_def
      lastReadStep_def user_addLastRead_def user_removeLastRead_def
      split: option.splits)

text \<open>
  For a member, leaving removes the membership row of that user and of nobody else,
  destroys the group exactly when no member of it is left among the users, and resolves
  to the id.
\<close>

lemma leaveGroup_member:
  assumes "Group_findOne s i (uid usr) = Some grp"
  shows "fst (leaveGroup s (Some usr) i) = Inr i \<and>
         groupUsers (snd (leaveGroup s (Some usr) i)) =
           filter (\<lambda>r. r \<noteq> (i, uid usr)) (groupUsers s) \<and>
         groups (snd (leaveGroup s (Some usr) i)) =
           (if filter (\<lambda>u. (i, uid u) \<in> set (groupUsers s) \<and> uid u \<noteq> uid usr) (users s) = []
            then filter (\<lambda>h. gid h \<noteq> i) (groups s) else groups s)"
proof -
  from Group_findOne_Some [OF assms] have g: "gid grp = i" by simp
  have f: "filter (\<lambda>r. fst r = i \<longrightarrow> snd r \<noteq> uid usr) (groupUsers s) =
        filter (\<lambda>r. r \<noteq> (i, uid usr)) (groupUsers s)"
    by (rule filter_cong) auto
  have m: "group_getUsers (group_removeUser s grp (uid usr)) grp =
        filter (\<lambda>u. (i, uid u) \<in> set (groupUsers s) \<and> uid u \<noteq> uid usr) (users s)"
    using g by (auto simp: group_getUsers_def group_removeUser_def intro: filter_cong)
  show ?thesis
    using assms g m
    by (simp add: leaveGroup_def getAuthenticatedUser_def Let_def group_destroy_def
        group_removeUser_def f)
qed

text \<open>
  Claim C5 on the source. Bob is not a member of group 1, so the lookup finds nothing.
  The chain then rejects with a TypeError, the store unchanged; it does not reject with
  the "No group found" of line 252. The claim is right about members: see
  \<open>leaveGroup_member\<close>.
\<close>

theorem leaveGroup_not_member_eval:
  "Group_findOne exampleStore 1 (uid bob) = None \<and>
   leaveGroup exampleStore (Some bob) 1 = (Inl TypeError, exampleStore) \<and>
   fst (leaveGroup exampleStore (Some bob) 1) \<noteq> Inl NoGroupFound"
proof -
  have n: "Group_findOne exampleStore 1 (uid bob) = None"
    by (simp add: Group_findOne_def ex_defs)
  from n leaveGroup_not_found [OF n] show ?thesis by simp
qed

text \<open>
  Claim C4 on the source. Bob is not a member of group 1. Deleting it rejects with a
  TypeError, not with Unauthorized, the store unchanged. Updating it with a last-read
  marker and an icon rejects with a TypeError as well, after the last-read row has been
  written and the icon uploaded.
\<close>

theorem deleteGroup_updateGroup_not_member_eval:
  "Group_findOne exampleStore 1 (uid bob) = None \<and>
   deleteGroup exampleStore (Some bob) 1 = (Inl TypeError, exampleStore) \<and>
   fst (updateGroup exampleStore (Some bob)
          \<lparr>ug_id = 1, ug_name = Some ''renamed'', ug_lastRead = Some 5,
           ug_icon = Some \<lparr>path = ''/tmp/i'', ftype = ''image/png''\<rparr>\<rparr> ''new.png'') =
     Inl TypeError \<and>
   lastReads (snd (updateGroup exampleStore (Some bob)
          \<lparr>ug_id = 1, ug_name = Some ''renamed'', ug_lastRead = Some 5,
           ug_icon = Some \<lparr>path = ''/tmp/i'', ftype = ''image/png''\<rparr>\<rparr> ''new.png'')) =
     [(1, 4), (2, 5)] \<and>
   lastReads exampleStore = [(1, 4)] \<and>
   files (snd (updateGroup exampleStore (Some bob)
          \<lparr>ug_id = 1, ug_name = Some ''renamed'', ug_lastRead = Some 5,
           ug_icon = Some \<lparr>path = ''/tmp/i'', ftype = ''image/png''\<rparr>\<rparr> ''new.png'')) =
     [''solo.png'', ''bob.png'', ''new.png''] \<and>
   files exampleStore = [''solo.png'', ''bob.png'']"
proof -
  let ?inp = "\<lparr>ug_id = 1, ug_name = Some ''renamed'', ug_lastRead = Some 5,
           ug_icon = Some \<lparr>path = ''/tmp/i'', ftype = ''image/png''\<rparr>\<rparr>"
  have n: "Group_findOne exampleStore 1 (uid bob) = None"
    by (simp add: Group_findOne_def ex_defs)
  then have n': "Group_findOne exampleStore (ug_id ?inp) (uid bob) = None" by simp
  have lr: "lastReads (lastReadStep exampleStore bob 1 (Some 5)) = [(1, 4), (2, 5)]"
    by (simp add: lastReadStep_def user_addLastRead_def user_removeLastRead_def
        user_getLastRead_def ex_defs)
  from n deleteGroup_not_found [OF n] updateGroup_not_found [OF n', of "''new.png''"]
    updateGroup_not_found_writes [OF n', of "''new.png''"] lr
  show ?thesis by (simp add: exampleStore_def)
qed

section \<open>Pages of messages\<close>

lemma limitRows_set: "set (limitRows l xs) \<subseteq> set xs"
  by (auto simp: limitRows_def split: option.splits dest: in_set_takeD)

lemma limitRows_length: "length (limitRows (Some n) xs) \<le> nat n"
  by (simp add: limitRows_def)

lemma limitRows_sorted: "sorted_wrt P xs \<Longrightarrow> sorted_wrt P (limitRows l xs)"
  by (auto simp: limitRows_def split: option.splits intro: sorted_wrt_take)

lemma findAll_set:
  "set (Message_findAll num s g w None) =
     {m \<in> set (messages s). groupId m = g \<and> idMatches num w (mid m)}"
  by (auto simp: Message_findAll_def limitRows_def)

lemma findAll_subset:
  "set (Message_findAll num s g w l) \<subseteq>
     {m \<in> set (messages s). groupId m = g \<and> idMatches num w (mid m)}"
  using limitRows_set [of l] by (fastforce simp: Message_findAll_def)

lemma findAll_newest_first:
  "sorted_wrt (\<lambda>a b. mid b \<le> mid a) (Message_findAll num s g w l)"
proof -
  let ?xs = "filter (\<lambda>m. groupId m = g \<and> idMatches num w (mid m)) (messages s)"
  have "sorted (map mid (sort_key mid ?xs))" by (rule sorted_sort_key)
  then have "sorted_wrt (\<lambda>a b. mid a \<le> mid b) (sort_key mid ?xs)"
    by (simp add: sorted_wrt_map)
  then have "sorted_wrt (\<lambda>a b. mid b \<le> mid a) (rev (sort_key mid ?xs))"
    by (simp add: sorted_wrt_rev)
  then show ?thesis unfolding Message_findAll_def by (rule limitRows_sorted)
qed

lemma findOne_exists:
  "Message_findOne num s g w \<noteq> None \<longleftrightarrow>
     (\<exists>m. m \<in> set (messages s) \<and> groupId m = g \<and> idMatches num w (mid m))"
proof -
  have "Message_findOne num s g w \<noteq> None \<longleftrightarrow> set (Message_findAll num s g w None) \<noteq> {}"
    by (simp add: Message_findOne_def split: list.splits)
  then show ?thesis unfolding findAll_set by auto
qed

text \<open>The id constraint of a request with at most one cursor.\<close>

lemma whereId_before_only:
  "beforeArg c = Some b \<Longrightarrow> b \<noteq> [] \<Longrightarrow> \<not> truthyStr (afterArg c) \<Longrightarrow>
     whereId c = Gt (Text (decodeCursor b))"
  by (auto simp: whereId_def truthyStr_def Let_def split: option.splits)

lemma whereId_after:
  "afterArg c = Some a \<Longrightarrow> a \<noteq> [] \<Longrightarrow> whereId c = Lt (Text (decodeCursor a))"
  by (simp add: whereId_def Let_def)

lemma whereId_none:
  "\<not> truthyStr (beforeArg c) \<Longrightarrow> \<not> truthyStr (afterArg c) \<Longrightarrow> whereId c = Any"
  by (auto simp: whereId_def truthyStr_def Let_def split: option.splits)

text \<open>
  What the page is when at most one cursor is given: the rows of the group, newest first,
  no more than the size when there is one, each beyond the cursor on its side.
\<close>

lemma pageRows_one_cursor:
  "sorted_wrt (\<lambda>a b. mid b \<le> mid a) (pageRows num s g c) \<and>
   (\<forall>n. jsOr (firstArg c) (lastArg c) = Some n \<longrightarrow> length (pageRows num s g c) \<le> nat n) \<and>
   (\<forall>m \<in> set (pageRows num s g c). m \<in> set (messages s) \<and> groupId m = gid g) \<and>
   (\<forall>b. beforeArg c = Some b \<and> b \<noteq> [] \<and> \<not> truthyStr (afterArg c) \<longrightarrow>
      (\<forall>m \<in> set (pageRows num s g c). num (decodeCursor b) < mid m)) \<and>
   (\<forall>a. afterArg c = Some a \<and> a \<noteq> [] \<longrightarrow>
      (\<forall>m \<in> set (pageRows num s g c). mid m < num (decodeCursor a)))"
proof (intro conjI allI impI ballI)
  show "sorted_wrt (\<lambda>a b. mid b \<le> mid a) (pageRows num s g c)"
    unfolding pageRows_def by (rule findAll_newest_first)
next
  fix n assume "jsOr (firstArg c) (lastArg c) = Some n"
  then show "length (pageRows num s g c) \<le> nat n"
    by (simp add: pageRows_def Message_findAll_def limitRows_length)
next
  fix m assume "m \<in> set (pageRows num s g c)"
  then show "m \<in> set (messages s)" "groupId m = gid g"
    using findAll_subset [of num s "gid g" "whereId c"] by (auto simp: pageRows_def)
next
  fix b m
  assume "beforeArg c = Some b \<and> b \<noteq> [] \<and> \<not> truthyStr (afterArg c)"
    and m: "m \<in> set (pageRows num s g c)"
  then have "whereId c = Gt (Text (decodeCursor b))" by (simp add: whereId_before_only)
  with m show "num (decodeCursor b) < mid m"
    using findAll_subset [of num s "gid g" "whereId c"] by (auto simp: pageRows_def)
next
  fix a m
  assume "afterArg c = Some a \<and> a \<noteq> []" and m: "m \<in> set (pageRows num s g c)"
  then have "whereId c = Lt (Text (decodeCursor a))" by (simp add: whereId_after)
  with m show "mid m < num (decodeCursor a)"
    using findAll_subset [of num s "gid g" "whereId c"] by (auto simp: pageRows_def)
qed

text \<open>
  Claim C2 on the source. With both cursors given, the second assignment of
  \<^verbatim>\<open>where.id\<close> (line 102) replaces the first (line 98), and the \<^verbatim>\<open>before\<close> cursor
  constrains nothing. Here the group has the messages 1 to 10, \<^verbatim>\<open>before\<close> is the
  cursor of 3, \<^verbatim>\<open>after\<close> the cursor of 7 and \<^verbatim>\<open>first\<close> is 10. The messages newer than
  3 and older than 7 are 6, 5, 4; the page is 6, 5, 4, 3, 2, 1.
\<close>

theorem pageRows_both_cursors_eval:
  "columnValue (decodeCursor (encodeCursor 3)) = 3 \<and>
   columnValue (decodeCursor (encodeCursor 7)) = 7 \<and>
   map mid (pageRows columnValue exampleStore team
              \<lparr>firstArg = Some 10, lastArg = None, beforeArg = Some (encodeCursor 3),
               afterArg = Some (encodeCursor 7)\<rparr>) = [6, 5, 4, 3, 2, 1] \<and>
   map (\<lambda>e. (cursor e, mid (node e)))
     (pageEdges columnValue exampleStore team
        \<lparr>firstArg = Some 10, lastArg = None, beforeArg = Some (encodeCursor 3),
         afterArg = Some (encodeCursor 7)\<rparr>) =
     [(''Ng=='', 6), (''NQ=='', 5), (''NA=='', 4), (''Mw=='', 3), (''Mg=='', 2), (''MQ=='', 1)]"
  by code_simp

text \<open>
  What \<^verbatim>\<open>hasNextPage\<close> is when one positive page size is given (the same number is read
  on line 108 and on line 119): false on a short page; on a full page, whether the group
  has a message with a greater id than the last row (when \<^verbatim>\<open>before\<close> is given) or with
  a smaller id than the last row (otherwise).
\<close>

lemma hasNextPage_one_size:
  assumes "jsOr (firstArg c) (lastArg c) = Some n"
    and "jsOr (lastArg c) (firstArg c) = Some n"
    and "0 < n"
  shows "hasNextPage num s g c =
     Inr (length (pageRows num s g c) = nat n \<and>
          (\<exists>m. m \<in> set (messages s) \<and> groupId m = gid g \<and>
               (if truthyStr (beforeArg c) then mid (last (pageRows num s g c)) < mid m
                else mid m < mid (last (pageRows num s g c)))))"
proof -
  let ?rows = "pageRows num s g c"
  have le: "length ?rows \<le> nat n"
    using assms(1) by (simp add: pageRows_def Message_findAll_def limitRows_length)
  show ?thesis
  proof (cases "length ?rows < nat n")
    case True
    then have "jsLess (int (length ?rows)) (jsOr (lastArg c) (firstArg c))"
      using assms by (simp add: jsLess_def)
    with True show ?thesis by (simp add: hasNextPage_def Let_def)
  next
    case False
    with le have full: "length ?rows = nat n" by simp
    then have nl: "\<not> jsLess (int (length ?rows)) (jsOr (lastArg c) (firstArg c))"
      using assms by (simp add: jsLess_def)
    from full assms(3) have ne: "?rows \<noteq> []" by auto
    have step: "hasNextPage num s g c =
        Inr (Message_findOne num s (gid g)
               (if truthyStr (beforeArg c) then Gt (Num (mid (last ?rows)))
                else Lt (Num (mid (last ?rows)))) \<noteq> None)"
      unfolding hasNextPage_def Let_def using nl ne by (simp split: list.splits)
    have "(Message_findOne num s (gid g)
               (if truthyStr (beforeArg c) then Gt (Num (mid (last ?rows)))
                else Lt (Num (mid (last ?rows)))) \<noteq> None) =
          (\<exists>m. m \<in> set (messages s) \<and> groupId m = gid g \<and>
               (if truthyStr (beforeArg c) then mid (last ?rows) < mid m
                else mid m < mid (last ?rows)))"
      using findOne_exists [of num s "gid g"] by (cases "truthyStr (beforeArg c)") simp_all
    with step full show ?thesis by simp
  qed
qed

text \<open>
  Claim C3 on the source. With \<^verbatim>\<open>first\<close> 2 and \<^verbatim>\<open>last\<close> 5 the page is limited by
  \<^verbatim>\<open>first || last\<close>, which is 2, and holds the two rows 10 and 9: it is exactly full.
  The group has older messages than 9. \<^verbatim>\<open>hasNextPage\<close> compares the count with
  \<^verbatim>\<open>last || first\<close>, which is 5, and answers false without looking.
\<close>

theorem hasNextPage_two_sizes_eval:
  "jsOr (Some 2) (Some 5) = Some 2 \<and>
   jsOr (Some 5) (Some 2) = Some 5 \<and>
   map mid (pageRows columnValue exampleStore team
              \<lparr>firstArg = Some 2, lastArg = Some 5, beforeArg = None, afterArg = None\<rparr>) =
     [10, 9] \<and>
   Message_findOne columnValue exampleStore (gid team) (Lt (Num 9)) \<noteq> None \<and>
   hasNextPage columnValue exampleStore team
     \<lparr>firstArg = Some 2, lastArg = Some 5, beforeArg = None, afterArg = None\<rparr> = Inr False \<and>
   hasNextPage columnValue exampleStore team
     \<lparr>firstArg = Some 2, lastArg = None, beforeArg = None, afterArg = None\<rparr> = Inr True"
  by code_simp

end
